theory Spec2Isabelle
  imports Main
begin

section \<open>JavaScript values used by the front-end\<close>

text \<open>
  A JavaScript string is a sequence of UTF-16 code units; a code unit is modelled as a
  natural number, so that the characters outside ASCII that the source mentions (the
  cross mark U+274C, the bullet U+2022, the Unicode white space) are single elements, as
  they are for \<^verbatim>\<open>String.prototype.length\<close>, \<^verbatim>\<open>trim\<close> and the regular expressions.
  \<open>str\<close> embeds an ASCII literal.
\<close>

type_synonym jsstr = "nat list"

definition str :: "string \<Rightarrow> jsstr" where
  "str s = map of_char s"

section \<open>The modal stack (chat.js, modalStack)\<close>

text \<open>
  \<^verbatim>\<open>console\<close> is modelled as the list of calls made to it, oldest first; the message
  texts are not kept. \<^verbatim>\<open>document.documentElement.style.overflow\<close> and
  \<^verbatim>\<open>document.body.style.overflow\<close> are the two overflow fields of the page.
\<close>

datatype console_call = Console_log | Console_warn | Console_error | Console_trace

record page =
  count :: int
  debug :: bool
  html_overflow :: string
  body_overflow :: string
  console :: "console_call list"

definition console_log_if_debug :: "page \<Rightarrow> page" where
  "console_log_if_debug p = (if debug p then p\<lparr>console := console p @ [Console_log]\<rparr> else p)"

definition modalStack_open :: "page \<Rightarrow> page" where
  "modalStack_open p0 =
     (let p1 = p0\<lparr>count := count p0 + 1\<rparr>;
          p2 = console_log_if_debug p1
      in if count p2 = 1
         then console_log_if_debug (p2\<lparr>html_overflow := ''hidden'', body_overflow := ''hidden''\<rparr>)
         else p2)"

definition modalStack_close :: "page \<Rightarrow> page" where
  "modalStack_close p0 =
     (let p1 = console_log_if_debug p0;
          p2 = p1\<lparr>count := count p1 - 1\<rparr>;
          p3 = (if count p2 < 0
                then p2\<lparr>console := console p2 @ [Console_error, Console_error, Console_trace],
                        count := 0\<rparr>
                else p2)
      in if count p3 = 0
         then console_log_if_debug (p3\<lparr>html_overflow := [], body_overflow := []\<rparr>)
         else console_log_if_debug p3)"

definition modalStack_forceReset :: "page \<Rightarrow> page" where
  "modalStack_forceReset p =
     p\<lparr>console := console p @ [Console_warn], count := 0,
        html_overflow := [], body_overflow := []\<rparr>"

datatype stack_call = Open | Close

fun stack_call_run :: "stack_call \<Rightarrow> page \<Rightarrow> page" where
  "stack_call_run Open p = modalStack_open p"
| "stack_call_run Close p = modalStack_close p"

text \<open>A sequence of calls, run in order from the page \<open>p\<close>.\<close>

fun stack_calls_run :: "stack_call list \<Rightarrow> page \<Rightarrow> page" where
  "stack_calls_run [] p = p"
| "stack_calls_run (c # cs) p = stack_calls_run cs (stack_call_run c p)"

text \<open>What a call appended to the console.\<close>

definition console_added :: "page \<Rightarrow> page \<Rightarrow> console_call list" where
  "console_added pre post = drop (length (console pre)) (console post)"

definition scroll_locked :: "page \<Rightarrow> bool" where
  "scroll_locked p \<longleftrightarrow> html_overflow p = ''hidden'' \<and> body_overflow p = ''hidden''"

definition scroll_free :: "page \<Rightarrow> bool" where
  "scroll_free p \<longleftrightarrow> html_overflow p = [] \<and> body_overflow p = []"

section \<open>The message limit (chat.js and chatbot/chat_limit.js)\<close>

record limit_state =
  total :: int
  remaining :: int
  canSend :: bool
  timeRemaining :: int

text \<open>
  \<^verbatim>\<open>getResetTimeString\<close> reads the clock: \<open>clock secs\<close> is the local time of day
  (hours 0..23, minutes) \<open>secs\<close> seconds from now, which the source takes from
  \<^verbatim>\<open>new Date(now.getTime() + secondsRemaining * 1000)\<close>.
\<close>

function digits_of :: "nat \<Rightarrow> jsstr" where
  "digits_of n = (if n < 10 then [48 + n] else digits_of (n div 10) @ [48 + n mod 10])"
  by pat_completeness auto
termination
  by (relation "measure id") auto

declare digits_of.simps [simp del]

text \<open>\<^verbatim>\<open>String(i)\<close> of an integer-valued number.\<close>

definition js_String :: "int \<Rightarrow> jsstr" where
  "js_String i = (if i < 0 then 45 # digits_of (nat (- i)) else digits_of (nat i))"

definition getResetTimeString :: "(int \<Rightarrow> nat \<times> nat) \<Rightarrow> int \<Rightarrow> jsstr" where
  "getResetTimeString clock secondsRemaining =
     (if secondsRemaining \<le> 0 then str ''now''
      else
        let (hours0, minutes) = clock secondsRemaining;
            ampm = (if hours0 \<ge> 12 then str ''PM'' else str ''AM'');
            hours1 = hours0 mod 12;
            hours = (if hours1 \<noteq> 0 then hours1 else 12);
            minutesStr = (if minutes < 10 then 48 # digits_of minutes else digits_of minutes)
        in digits_of hours @ str '':'' @ minutesStr @ str '' '' @ ampm)"

text \<open>
  The elements \<^verbatim>\<open>updateMessageLimitUI\<close> touches. \<open>has_messagesLeft\<close> says whether
  \<^verbatim>\<open>getElementById('messagesLeft')\<close> finds an element; the send button, the input
  and the counter are on the chat page. The placeholder is the text of chat.js (it ends
  with the ellipsis U+2026); \<^verbatim>\<open>remaining <= total / 2\<close> is written without the division.
\<close>

record limit_dom =
  has_messagesLeft :: bool
  messagesLeft_text :: jsstr
  counter_classes :: "string set"
  sendButton_disabled :: bool
  messageInput_disabled :: bool
  messageInput_placeholder :: jsstr

definition updateMessageLimitUI ::
  "(int \<Rightarrow> nat \<times> nat) \<Rightarrow> limit_state \<Rightarrow> limit_dom \<Rightarrow> limit_dom" where
  "updateMessageLimitUI clock st d0 =
     (let d1 =
        (if has_messagesLeft d0 then
           let da = d0\<lparr>messagesLeft_text := js_String (remaining st),
                       counter_classes :=
                         counter_classes d0 - {''counter-zero'', ''counter-low'', ''counter-half''}\<rparr>
           in if remaining st = 0
              then da\<lparr>counter_classes := insert ''counter-zero'' (counter_classes da)\<rparr>
              else if remaining st \<le> 3
              then da\<lparr>counter_classes := insert ''counter-low'' (counter_classes da)\<rparr>
              else if 2 * remaining st \<le> total st
              then da\<lparr>counter_classes := insert ''counter-half'' (counter_classes da)\<rparr>
              else da
         else d0)
      in if \<not> canSend st
         then d1\<lparr>sendButton_disabled := True,
                 messageInput_disabled := True,
                 messageInput_placeholder :=
                   str ''No messages left. You can chat Snowfriend again at ''
                   @ getResetTimeString clock (timeRemaining st)
                   @ str '' to get another '' @ js_String (total st) @ str '' messages''\<rparr>
         else d1\<lparr>messageInput_disabled := False,
                 messageInput_placeholder := str ''Type what's on your mind'' @ [8230]\<rparr>)"

subsection \<open>formatTime\<close>







section \<open>Concrete inputs\<close>

definition page0 :: page where
  "page0 = \<lparr>count = 0, debug = False, html_overflow = [], body_overflow = [], console = []\<rparr>"

definition dom0 :: limit_dom where
  "dom0 = \<lparr>has_messagesLeft = True, messagesLeft_text = str ''15'', counter_classes = {},
            sendButton_disabled = False, messageInput_disabled = False,
            messageInput_placeholder = []\<rparr>"

definition midnight :: "int \<Rightarrow> nat \<times> nat" where
  "midnight secs = (0, 0)"

section \<open>Strings and regular expressions of the JavaScript library\<close>

text \<open>
  White space as \<^verbatim>\<open>trim\<close> and the class \<^verbatim>\<open>\s\<close> see it (WhiteSpace and LineTerminator of
  ECMAScript), the line terminators that \<^verbatim>\<open>.\<close> excludes, and the ASCII digits of \<^verbatim>\<open>\d\<close>.
\<close>

definition is_space :: "nat \<Rightarrow> bool" where
  "is_space c \<longleftrightarrow>
     c \<in> {9, 10, 11, 12, 13, 32, 160, 5760, 8232, 8233, 8239, 8287, 12288, 65279}
     \<or> (8192 \<le> c \<and> c \<le> 8202)"

definition is_line_terminator :: "nat \<Rightarrow> bool" where
  "is_line_terminator c \<longleftrightarrow> c \<in> {10, 13, 8232, 8233}"

definition trim :: "jsstr \<Rightarrow> jsstr" where
  "trim s = rev (dropWhile is_space (rev (dropWhile is_space s)))"

fun startsWith :: "jsstr \<Rightarrow> jsstr \<Rightarrow> bool" where
  "startsWith s [] = True"
| "startsWith [] (p # ps) = False"
| "startsWith (c # cs) (p # ps) = (c = p \<and> startsWith cs ps)"

definition endsWith :: "jsstr \<Rightarrow> jsstr \<Rightarrow> bool" where
  "endsWith s p = startsWith (rev s) (rev p)"

fun includes_str :: "jsstr \<Rightarrow> jsstr \<Rightarrow> bool" where
  "includes_str [] p = (p = [])"
| "includes_str (c # cs) p = (startsWith (c # cs) p \<or> includes_str cs p)"

text \<open>\<^verbatim>\<open>s.slice(start, end)\<close>; a negative index counts from the end.\<close>

definition slice :: "jsstr \<Rightarrow> int \<Rightarrow> int \<Rightarrow> jsstr" where
  "slice s start stop =
     (let len = int (length s);
          first = (if start < 0 then max (len + start) 0 else min start len);
          final = (if stop < 0 then max (len + stop) 0 else min stop len)
      in take (nat (final - first)) (drop (nat first) s))"

text \<open>\<^verbatim>\<open>s.split('\n')\<close> (at least one piece) and \<^verbatim>\<open>lines.join('\n')\<close>.\<close>

fun split_nl :: "jsstr \<Rightarrow> jsstr list" where
  "split_nl [] = [[]]"
| "split_nl (c # cs) =
     (if c = 10 then [] # split_nl cs
      else (c # hd (split_nl cs)) # tl (split_nl cs))"

fun join_nl :: "jsstr list \<Rightarrow> jsstr" where
  "join_nl [] = []"
| "join_nl [l] = l"
| "join_nl (l # ls) = l @ 10 # join_nl ls"

text \<open>
  The regular expressions of the source, without flags: a class of code units, sequence,
  alternative, \<^verbatim>\<open>?\<close>, greedy \<^verbatim>\<open>*\<close> and lazy \<^verbatim>\<open>*?\<close>. \<open>matches r s\<close> lists, in the
  order in which the backtracking matcher tries them, what is left of \<open>s\<close> after each way
  of matching \<open>r\<close> at its start; the head of the list is the match the engine reports.
  As in ECMAScript, an iteration of \<^verbatim>\<open>*\<close> that consumes nothing is not repeated.
\<close>

datatype rx =
    Eps
  | Cls "nat \<Rightarrow> bool"
  | Cat rx rx
  | Alt rx rx
  | Opt rx
  | Star rx
  | Lazy rx

function matches :: "rx \<Rightarrow> jsstr \<Rightarrow> jsstr list" where
  "matches Eps s = [s]"
| "matches (Cls P) s = (case s of [] \<Rightarrow> [] | c # cs \<Rightarrow> if P c then [cs] else [])"
| "matches (Cat r1 r2) s = concat (map (matches r2) (matches r1 s))"
| "matches (Alt r1 r2) s = matches r1 s @ matches r2 s"
| "matches (Opt r) s = matches r s @ [s]"
| "matches (Star r) s =
     concat (map (\<lambda>t. if length t < length s then matches (Star r) t else []) (matches r s))
     @ [s]"
| "matches (Lazy r) s =
     s # concat (map (\<lambda>t. if length t < length s then matches (Lazy r) t else [])
                  (matches r s))"
  by pat_completeness auto
termination
  by (relation "inv_image (less_than <*lex*> less_than) (\<lambda>(r, s). (size r, length s))") auto

definition Plus :: "rx \<Rightarrow> rx" where
  "Plus r = Cat r (Star r)"

definition ch :: "nat \<Rightarrow> rx" where
  "ch c = Cls (\<lambda>x. x = c)"

text \<open>
  Under the flag \<^verbatim>\<open>i\<close> (without \<^verbatim>\<open>u\<close>) two code units match when their upper-case
  forms agree, and a code unit outside ASCII never matches an ASCII one.
\<close>

definition upper_ascii :: "nat \<Rightarrow> nat" where
  "upper_ascii c = (if 97 \<le> c \<and> c \<le> 122 then c - 32 else c)"

definition chi :: "nat \<Rightarrow> rx" where
  "chi c = Cls (\<lambda>x. upper_ascii x = upper_ascii c)"

fun lit :: "jsstr \<Rightarrow> rx" where
  "lit [] = Eps"
| "lit (c # cs) = Cat (ch c) (lit cs)"

fun liti :: "jsstr \<Rightarrow> rx" where
  "liti [] = Eps"
| "liti (c # cs) = Cat (chi c) (liti cs)"

definition dot :: rx where
  "dot = Cls (\<lambda>c. \<not> is_line_terminator c)"

text \<open>
  \<^verbatim>\<open>/^r$/.test(s)\<close>, \<^verbatim>\<open>/^r/.test(s)\<close>, and the leftmost match of \<^verbatim>\<open>/r/\<close> in \<open>s\<close>: the text
  before it, the matched text and the text after it.
\<close>

definition test_whole :: "rx \<Rightarrow> jsstr \<Rightarrow> bool" where
  "test_whole r s \<longleftrightarrow> [] \<in> set (matches r s)"

definition test_start :: "rx \<Rightarrow> jsstr \<Rightarrow> bool" where
  "test_start r s \<longleftrightarrow> matches r s \<noteq> []"

fun search_from :: "rx \<Rightarrow> jsstr \<Rightarrow> jsstr \<Rightarrow> (jsstr \<times> jsstr \<times> jsstr) option" where
  "search_from r pre [] =
     (case matches r [] of [] \<Rightarrow> None | t # ts \<Rightarrow> Some (pre, [], []))"
| "search_from r pre (c # cs) =
     (case matches r (c # cs) of
        [] \<Rightarrow> search_from r (pre @ [c]) cs
      | t # ts \<Rightarrow> Some (pre, take (length (c # cs) - length t) (c # cs), t))"

definition search :: "rx \<Rightarrow> jsstr \<Rightarrow> (jsstr \<times> jsstr \<times> jsstr) option" where
  "search r s = search_from r [] s"

text \<open>
  \<^verbatim>\<open>s.replace(/r/g, f)\<close> with a replacement function \<open>f\<close> of the matched text: the matches
  are found from left to right, each search starting where the last match ended (one
  code unit further after an empty match).
\<close>

function replace_all :: "rx \<Rightarrow> (jsstr \<Rightarrow> jsstr) \<Rightarrow> jsstr \<Rightarrow> jsstr" where
  "replace_all r f s =
     (case matches r s of
        [] \<Rightarrow> (case s of [] \<Rightarrow> [] | c # cs \<Rightarrow> c # replace_all r f cs)
      | t # ts \<Rightarrow>
          if length t < length s
          then f (take (length s - length t) s) @ replace_all r f t
          else (case s of [] \<Rightarrow> f [] | c # cs \<Rightarrow> f [] @ c # replace_all r f cs))"
  by pat_completeness auto
termination
  by (relation "measure (\<lambda>(r, f, s). length s)") auto

declare replace_all.simps [simp del]

text \<open>
  \<^verbatim>\<open>s.replace(pattern, replacement)\<close> with two strings: the first occurrence of the
  pattern is replaced; in the replacement \<^verbatim>\<open>$$\<close> stands for a dollar sign, \<^verbatim>\<open>$&\<close> for the
  matched text, \<^verbatim>\<open>$`\<close> for the text before it and \<^verbatim>\<open>$'\<close> for the text after it.
\<close>

fun substitution :: "jsstr \<Rightarrow> jsstr \<Rightarrow> jsstr \<Rightarrow> jsstr \<Rightarrow> jsstr" where
  "substitution pre matched post [] = []"
| "substitution pre matched post [c] = [c]"
| "substitution pre matched post (c # d # cs) =
     (if c = 36 \<and> d = 36 then 36 # substitution pre matched post cs
      else if c = 36 \<and> d = 38 then matched @ substitution pre matched post cs
      else if c = 36 \<and> d = 96 then pre @ substitution pre matched post cs
      else if c = 36 \<and> d = 39 then post @ substitution pre matched post cs
      else c # substitution pre matched post (d # cs))"

definition replace_first :: "jsstr \<Rightarrow> jsstr \<Rightarrow> jsstr \<Rightarrow> jsstr" where
  "replace_first s pattern replacement =
     (case search (lit pattern) s of
        None \<Rightarrow> s
      | Some (pre, matched, post) \<Rightarrow>
          pre @ substitution pre matched post replacement @ post)"

text \<open>
  \<^verbatim>\<open>s.split(/r/)\<close> for a pattern without groups: \<open>piece\<close> is the text since the last
  separator, and a match that ends where the piece starts is skipped.
\<close>

function split_loop :: "rx \<Rightarrow> jsstr \<Rightarrow> jsstr \<Rightarrow> jsstr list" where
  "split_loop r piece [] = [piece]"
| "split_loop r piece (c # cs) =
     (case matches r (c # cs) of
        [] \<Rightarrow> split_loop r (piece @ [c]) cs
      | t # ts \<Rightarrow>
          if length t < length (c # cs) then piece # split_loop r [] t
          else if piece = [] then split_loop r [c] cs
          else piece # split_loop r [c] cs)"
  by pat_completeness auto
termination
  by (relation "measure (\<lambda>(r, piece, s). length s)") auto

definition split_rx :: "rx \<Rightarrow> jsstr \<Rightarrow> jsstr list" where
  "split_rx r s =
     (if s = [] then (if matches r [] = [] then [[]] else []) else split_loop r [] s)"

section \<open>Form validation (validateEmail)\<close>

text \<open>
  \<^verbatim>\<open>toLowerCase\<close> on the ASCII letters; the case mappings of Unicode outside ASCII are
  not modelled. The pattern is \<^verbatim>\<open>/^[^\s@]+@[^\s@]+\.[^\s@]+$/\<close>.
\<close>

definition toLowerCase :: "jsstr \<Rightarrow> jsstr" where
  "toLowerCase s = map (\<lambda>c. if 65 \<le> c \<and> c \<le> 90 then c + 32 else c) s"

definition not_space_at :: rx where
  "not_space_at = Cls (\<lambda>c. \<not> is_space c \<and> c \<noteq> 64)"

definition email_rx :: rx where
  "email_rx =
     Cat (Plus not_space_at)
       (Cat (ch 64) (Cat (Plus not_space_at) (Cat (ch 46) (Plus not_space_at))))"

definition validateEmail :: "jsstr \<Rightarrow> bool" where
  "validateEmail email = test_whole email_rx (toLowerCase email)"

section \<open>Cleaning a message text (chat.js)\<close>

subsection \<open>replaceAsterisksInText\<close>

text \<open>
  The pattern is \<^verbatim>\<open>/\*([^*]+)\*/g\<close>. The callback receives the matched text and its group
  \<^verbatim>\<open>content\<close>, which is the matched text without the asterisk at each end.
  \<^verbatim>\<open>wordCount\<close> is \<^verbatim>\<open>content.trim().split(/\s+/).length\<close>.
\<close>

definition asterisk_rx :: rx where
  "asterisk_rx = Cat (ch 42) (Cat (Plus (Cls (\<lambda>c. c \<noteq> 42))) (ch 42))"

definition spaces_rx :: rx where
  "spaces_rx = Plus (Cls is_space)"

definition wordCount :: "jsstr \<Rightarrow> nat" where
  "wordCount content = length (split_rx spaces_rx (trim content))"

definition quote_span :: "jsstr \<Rightarrow> jsstr" where
  "quote_span matched =
     (let content = butlast (tl matched)
      in if wordCount content \<le> 2 then [39] @ content @ [39]
         else [34] @ content @ [34])"

definition replaceAsterisksInText :: "jsstr \<Rightarrow> jsstr" where
  "replaceAsterisksInText text = replace_all asterisk_rx quote_span text"

subsection \<open>replaceAsterisksWithQuotes\<close>

text \<open>
  The disclaimer pattern is
  \<^verbatim>\<open>/\*\([^)]*I'm here to listen[^)]*professional[^)]*\)\*/i\<close>.
\<close>

definition not_paren :: rx where
  "not_paren = Cls (\<lambda>c. c \<noteq> 41)"

definition disclaimer_rx :: rx where
  "disclaimer_rx =
     Cat (ch 42) (Cat (ch 40) (Cat (Star not_paren)
       (Cat (liti (str ''I'm here to listen'')) (Cat (Star not_paren)
         (Cat (liti (str ''professional'')) (Cat (Star not_paren)
           (Cat (ch 41) (ch 42))))))))"

definition placeholder :: jsstr where
  "placeholder = str ''<<<DISCLAIMER_PLACEHOLDER>>>''"

definition replaceAsterisksWithQuotes :: "jsstr \<Rightarrow> jsstr" where
  "replaceAsterisksWithQuotes text =
     (if text = [] \<or> \<not> includes_str text [42] then text
      else
        case search disclaimer_rx text of
          Some (pre, disclaimer, post) \<Rightarrow>
            let textWithoutDisclaimer = replace_first text disclaimer placeholder;
                processed = replaceAsterisksInText textWithoutDisclaimer
            in replace_first processed placeholder disclaimer
        | None \<Rightarrow> replaceAsterisksInText text)"

subsection \<open>fixBulletListSpacing\<close>

text \<open>
  A list item is a stripped line that matches \<^verbatim>\<open>/^[-\<bullet>*]\s/\<close> (hyphen, bullet U+2022 or
  asterisk) or \<^verbatim>\<open>/^\d+\.\s/\<close>. \<open>fix_lines\<close> is the loop: the lines still to
  read, the index \<open>i\<close>, \<^verbatim>\<open>fixedLines\<close> and \<^verbatim>\<open>inList\<close>.
\<close>

definition bullet_rx :: rx where
  "bullet_rx = Cat (Cls (\<lambda>c. c = 45 \<or> c = 8226 \<or> c = 42)) (Cls is_space)"

definition numbered_rx :: rx where
  "numbered_rx = Cat (Plus (Cls (\<lambda>c. 48 \<le> c \<and> c \<le> 57))) (Cat (ch 46) (Cls is_space))"

definition isListItem :: "jsstr \<Rightarrow> bool" where
  "isListItem lineStripped \<longleftrightarrow>
     test_start bullet_rx lineStripped \<or> test_start numbered_rx lineStripped"

definition push_blank_after_text :: "jsstr list \<Rightarrow> jsstr list" where
  "push_blank_after_text fixedLines =
     (if fixedLines \<noteq> [] \<and> trim (last fixedLines) \<noteq> [] then fixedLines @ [[]]
      else fixedLines)"

fun fix_lines :: "jsstr list \<Rightarrow> nat \<Rightarrow> jsstr list \<Rightarrow> bool \<Rightarrow> jsstr list" where
  "fix_lines [] i fixedLines inList = fixedLines"
| "fix_lines (line # rest) i fixedLines inList =
     (let lineStripped = trim line;
          isItem = isListItem lineStripped;
          entering = (isItem \<and> \<not> inList);
          fixed1 = (if entering \<and> 0 < i then push_blank_after_text fixedLines else fixedLines);
          inList1 = (if entering then True else inList);
          leaving = (\<not> isItem \<and> inList1 \<and> lineStripped \<noteq> []);
          fixed2 = (if leaving then push_blank_after_text fixed1 else fixed1);
          inList2 = (if leaving then False else inList1)
      in fix_lines rest (i + 1) (fixed2 @ [line]) inList2)"

definition fixBulletListSpacing :: "jsstr \<Rightarrow> jsstr" where
  "fixBulletListSpacing text =
     (if text = [] then text else join_nl (fix_lines (split_nl text) 0 [] False))"

subsection \<open>cleanMessageText\<close>

text \<open>
  The patterns are \<^verbatim>\<open>/X.*ASTERISKS.*X/g\<close> and \<^verbatim>\<open>/X[^\n]*\n?/g\<close>, where X is the cross
  mark U+274C, then \<^verbatim>\<open>/\s+/g\<close> inside a line and \<^verbatim>\<open>/ +\./g\<close>, \<^verbatim>\<open>/ +\?/g\<close>,
  \<^verbatim>\<open>/ +!/g\<close>, \<^verbatim>\<open>/ +,/g\<close> at the end. \<open>clean_lines\<close> is the loop over the lines
  with its counter \<^verbatim>\<open>consecutiveEmpty\<close>.
\<close>

definition cross_asterisks_rx :: rx where
  "cross_asterisks_rx =
     Cat (ch 10060) (Cat (Star dot) (Cat (lit (str ''ASTERISKS'')) (Cat (Star dot) (ch 10060))))"

definition cross_line_rx :: rx where
  "cross_line_rx = Cat (ch 10060) (Cat (Star (Cls (\<lambda>c. c \<noteq> 10))) (Opt (ch 10)))"

definition spaces_before :: "nat \<Rightarrow> rx" where
  "spaces_before c = Cat (Plus (ch 32)) (ch c)"

definition remove_all :: "rx \<Rightarrow> jsstr \<Rightarrow> jsstr" where
  "remove_all r s = replace_all r (\<lambda>matched. []) s"

definition unwrap_parentheses :: "jsstr \<Rightarrow> jsstr" where
  "unwrap_parentheses text =
     (if startsWith text [40] \<and> endsWith text [41] then
        if \<not> (includes_str text (str ''I'm here to listen'') \<and> includes_str text (str ''professional''))
        then trim (slice text 1 (- 1))
        else text
      else text)"

fun clean_lines :: "jsstr list \<Rightarrow> nat \<Rightarrow> jsstr list" where
  "clean_lines [] consecutiveEmpty = []"
| "clean_lines (line # rest) consecutiveEmpty =
     (let lineStripped = trim line
      in if lineStripped \<noteq> []
         then replace_all spaces_rx (\<lambda>matched. [32]) lineStripped # clean_lines rest 0
         else if consecutiveEmpty + 1 \<le> 1
         then [] # clean_lines rest (consecutiveEmpty + 1)
         else clean_lines rest (consecutiveEmpty + 1))"

definition tidy_punctuation :: "jsstr \<Rightarrow> jsstr" where
  "tidy_punctuation text =
     (let t1 = replace_all (spaces_before 46) (\<lambda>matched. [46]) text;
          t2 = replace_all (spaces_before 63) (\<lambda>matched. [63]) t1;
          t3 = replace_all (spaces_before 33) (\<lambda>matched. [33]) t2
      in replace_all (spaces_before 44) (\<lambda>matched. [44]) t3)"

definition cleanMessageText :: "jsstr \<Rightarrow> jsstr" where
  "cleanMessageText text =
     (if text = [] then []
      else
        let t1 = trim (remove_all cross_asterisks_rx text);
            t2 = trim (remove_all cross_line_rx t1);
            t3 = replaceAsterisksWithQuotes t2;
            t4 = unwrap_parentheses t3;
            t5 = join_nl (clean_lines (split_nl t4) 0);
            t6 = fixBulletListSpacing t5;
            t7 = tidy_punctuation t6
        in trim t7)"

section \<open>The modal stack: the counter and the scroll lock\<close>

lemmas modalStack_defs =
  modalStack_open_def modalStack_close_def console_log_if_debug_def Let_def

lemma count_open: "count (modalStack_open p) = count p + 1"
  by (simp add: modalStack_defs)

lemma count_close: "count (modalStack_close p) = (if count p \<le> 0 then 0 else count p - 1)"
  by (simp add: modalStack_defs)

lemma count_step_nonneg: "0 \<le> count p \<Longrightarrow> 0 \<le> count (stack_call_run c p)"
  by (cases c) (simp_all add: count_open count_close)

lemma count_run_nonneg: "0 \<le> count p \<Longrightarrow> 0 \<le> count (stack_calls_run cs p)"
  by (induction cs arbitrary: p) (simp_all add: count_step_nonneg)

lemma count_step_cong: "count p = count q \<Longrightarrow> count (stack_call_run c p) = count (stack_call_run c q)"
  by (cases c) (simp_all add: count_open count_close)

lemma count_run_cong: "count p = count q \<Longrightarrow> count (stack_calls_run cs p) = count (stack_calls_run cs q)"
proof (induction cs arbitrary: p q)
  case Nil
  then show ?case by simp
next
  case (Cons c cs)
  from Cons.prems have "count (stack_call_run c p) = count (stack_call_run c q)"
    by (rule count_step_cong)
  then have "count (stack_calls_run cs (stack_call_run c p))
             = count (stack_calls_run cs (stack_call_run c q))"
    by (rule Cons.IH)
  then show ?case by simp
qed

lemma close_at_zero_logs:
  "count p \<le> 0 \<Longrightarrow> Console_error \<in> set (console_added p (modalStack_close p))"
  by (simp add: modalStack_defs console_added_def)

lemma close_positive_quiet:
  "0 < count p \<Longrightarrow> Console_error \<notin> set (console_added p (modalStack_close p))"
  by (simp add: modalStack_defs console_added_def)

text \<open>
  Claim C1. Starting from count 0, after any sequence \<open>cs\<close> of \<^verbatim>\<open>modalStack.open()\<close> and
  \<^verbatim>\<open>modalStack.close()\<close> calls the count is not negative. A \<^verbatim>\<open>close()\<close> at count 0
  (the one that would drive it below zero) leaves the count at exactly 0 and reports on the
  console (\<^verbatim>\<open>console.error\<close>, then \<^verbatim>\<open>console.trace\<close>); it raises nothing, and the calls
  after it work: \<^verbatim>\<open>open()\<close> gives count 1, and any later sequence \<open>ds\<close> counts as it
  would have without the extra \<^verbatim>\<open>close()\<close>, never below zero.
\<close>

theorem modalStack_count_never_negative:
  assumes "count p = 0"
  shows "0 \<le> count (stack_calls_run cs p) \<and>
    (count (stack_calls_run cs p) = 0 \<longrightarrow>
       count (modalStack_close (stack_calls_run cs p)) = 0 \<and>
       Console_error \<in> set (console_added (stack_calls_run cs p)
                               (modalStack_close (stack_calls_run cs p))) \<and>
       count (modalStack_open (modalStack_close (stack_calls_run cs p))) = 1 \<and>
       (\<forall>ds. count (stack_calls_run ds (modalStack_close (stack_calls_run cs p)))
              = count (stack_calls_run ds (stack_calls_run cs p)) \<and>
             0 \<le> count (stack_calls_run ds (modalStack_close (stack_calls_run cs p)))))"
proof -
  let ?q = "stack_calls_run cs p"
  have nonneg: "0 \<le> count ?q"
    using assms by (simp add: count_run_nonneg)
  have clamp: "count (modalStack_close ?q) = 0" if "count ?q = 0"
    using that by (simp add: count_close)
  have same: "count (stack_calls_run ds (modalStack_close ?q)) = count (stack_calls_run ds ?q)"
    if "count ?q = 0" for ds
    using that clamp by (intro count_run_cong) simp
  have still: "0 \<le> count (stack_calls_run ds (modalStack_close ?q))" if "count ?q = 0" for ds
    using clamp [OF that] by (intro count_run_nonneg) simp
  have logs: "Console_error \<in> set (console_added ?q (modalStack_close ?q))" if "count ?q = 0"
    using that close_at_zero_logs [of ?q] by simp
  have reopen: "count (modalStack_open (modalStack_close ?q)) = 1" if "count ?q = 0"
    using clamp [OF that] by (simp add: count_open)
  show ?thesis
  proof (intro conjI impI allI)
    show "0 \<le> count ?q" by (rule nonneg)
    show "count (modalStack_close ?q) = 0" if "count ?q = 0"
      using that by (rule clamp)
    show "Console_error \<in> set (console_added ?q (modalStack_close ?q))" if "count ?q = 0"
      using that by (rule logs)
    show "count (modalStack_open (modalStack_close ?q)) = 1" if "count ?q = 0"
      using that by (rule reopen)
    show "count (stack_calls_run ds (modalStack_close ?q)) = count (stack_calls_run ds ?q)"
      if "count ?q = 0" for ds
      using that by (rule same)
    show "0 \<le> count (stack_calls_run ds (modalStack_close ?q))" if "count ?q = 0" for ds
      using that by (rule still)
  qed
qed

lemma run_open_close_close:
  "stack_calls_run [Open, Close, Close] page0 =
     \<lparr>count = 0, debug = False, html_overflow = [], body_overflow = [],
      console = [Console_error, Console_error, Console_trace]\<rparr>"
  by (simp add: page0_def modalStack_defs)

text \<open>
  Witness for C1: \<^verbatim>\<open>open(); close(); close()\<close> on the fresh page ends at count 0, the
  second \<^verbatim>\<open>close()\<close> having written to the console.
\<close>

theorem modalStack_count_never_negative_witness:
  "count page0 = 0 \<and> 0 \<le> count (stack_calls_run [Open, Close, Close] page0) \<and>
   console (stack_calls_run [Open, Close, Close] page0)
     = [Console_error, Console_error, Console_trace]"
proof -
  have h: "count page0 = 0"
    by (simp add: page0_def)
  have "0 \<le> count (stack_calls_run [Open, Close, Close] page0)"
    using modalStack_count_never_negative [OF h, of "[Open, Close, Close]"] by (rule conjunct1)
  moreover have "console (stack_calls_run [Open, Close, Close] page0)
     = [Console_error, Console_error, Console_trace]"
    by (simp only: run_open_close_close page.simps)
  ultimately show ?thesis
    using h by (intro conjI)
qed

lemma lock_step:
  "0 \<le> count p \<Longrightarrow> (if 0 < count p then scroll_locked p else scroll_free p) \<Longrightarrow>
   (if 0 < count (stack_call_run c p) then scroll_locked (stack_call_run c p)
    else scroll_free (stack_call_run c p))"
  by (cases c) (auto simp: modalStack_defs scroll_locked_def scroll_free_def)

lemma lock_run:
  "0 \<le> count p \<Longrightarrow> (if 0 < count p then scroll_locked p else scroll_free p) \<Longrightarrow>
   (if 0 < count (stack_calls_run cs p) then scroll_locked (stack_calls_run cs p)
    else scroll_free (stack_calls_run cs p))"
proof (induction cs arbitrary: p)
  case Nil
  then show ?case by simp
next
  case (Cons c cs)
  have "0 \<le> count (stack_call_run c p)"
    using Cons.prems(1) by (rule count_step_nonneg)
  moreover have "if 0 < count (stack_call_run c p) then scroll_locked (stack_call_run c p)
    else scroll_free (stack_call_run c p)"
    using Cons.prems by (rule lock_step)
  ultimately show ?case
    using Cons.IH [of "stack_call_run c p"] by simp
qed

lemma locked_not_free: "scroll_locked p \<Longrightarrow> \<not> scroll_free p"
  by (auto simp: scroll_locked_def scroll_free_def)

text \<open>
  Claim C5. Starting from count 0 with the page scrollable, after any sequence \<open>cs\<close> of
  \<^verbatim>\<open>open()\<close> and \<^verbatim>\<open>close()\<close> calls the overflow of the document element and of the body is
  \<^verbatim>\<open>'hidden'\<close> exactly when the count is positive, and \<^verbatim>\<open>''\<close> exactly when it is 0.
  The next \<^verbatim>\<open>open()\<close> at count 0 hides it, the next \<^verbatim>\<open>close()\<close> at count 1 restores it,
  and a call that keeps the count positive leaves both overflow values as they are.
\<close>

theorem modalStack_drives_scroll_lock:
  assumes "count p = 0" and "scroll_free p"
  shows "(scroll_locked (stack_calls_run cs p) \<longleftrightarrow> 0 < count (stack_calls_run cs p)) \<and>
    (scroll_free (stack_calls_run cs p) \<longleftrightarrow> count (stack_calls_run cs p) = 0) \<and>
    (count (stack_calls_run cs p) = 0 \<longrightarrow>
       scroll_locked (modalStack_open (stack_calls_run cs p))) \<and>
    (count (stack_calls_run cs p) = 1 \<longrightarrow>
       scroll_free (modalStack_close (stack_calls_run cs p))) \<and>
    (0 < count (stack_calls_run cs p) \<longrightarrow>
       html_overflow (modalStack_open (stack_calls_run cs p)) = html_overflow (stack_calls_run cs p) \<and>
       body_overflow (modalStack_open (stack_calls_run cs p)) = body_overflow (stack_calls_run cs p)) \<and>
    (1 < count (stack_calls_run cs p) \<longrightarrow>
       html_overflow (modalStack_close (stack_calls_run cs p)) = html_overflow (stack_calls_run cs p) \<and>
       body_overflow (modalStack_close (stack_calls_run cs p)) = body_overflow (stack_calls_run cs p))"
proof -
  let ?q = "stack_calls_run cs p"
  have nonneg: "0 \<le> count ?q"
    using assms(1) by (simp add: count_run_nonneg)
  have inv: "if 0 < count ?q then scroll_locked ?q else scroll_free ?q"
    using assms lock_run [of p cs] by simp
  have a: "scroll_locked ?q \<longleftrightarrow> 0 < count ?q"
    using inv locked_not_free [of ?q] by (auto split: if_splits)
  have b: "scroll_free ?q \<longleftrightarrow> count ?q = 0"
    using inv nonneg locked_not_free [of ?q] by (auto split: if_splits)
  have c: "scroll_locked (modalStack_open ?q)" if "count ?q = 0"
    using that by (simp add: modalStack_defs scroll_locked_def)
  have d: "scroll_free (modalStack_close ?q)" if "count ?q = 1"
    using that by (simp add: modalStack_defs scroll_free_def)
  have e: "html_overflow (modalStack_open ?q) = html_overflow ?q \<and>
           body_overflow (modalStack_open ?q) = body_overflow ?q" if "0 < count ?q"
    using that by (simp add: modalStack_defs)
  have f: "html_overflow (modalStack_close ?q) = html_overflow ?q \<and>
           body_overflow (modalStack_close ?q) = body_overflow ?q" if "1 < count ?q"
    using that by (simp add: modalStack_defs)
  show ?thesis
  proof (intro conjI impI)
    show "scroll_locked ?q \<longleftrightarrow> 0 < count ?q" by (rule a)
    show "scroll_free ?q \<longleftrightarrow> count ?q = 0" by (rule b)
    show "scroll_locked (modalStack_open ?q)" if "count ?q = 0"
      using that by (rule c)
    show "scroll_free (modalStack_close ?q)" if "count ?q = 1"
      using that by (rule d)
    show "html_overflow (modalStack_open ?q) = html_overflow ?q" if "0 < count ?q"
      using e [OF that] by (rule conjunct1)
    show "body_overflow (modalStack_open ?q) = body_overflow ?q" if "0 < count ?q"
      using e [OF that] by (rule conjunct2)
    show "html_overflow (modalStack_close ?q) = html_overflow ?q" if "1 < count ?q"
      using f [OF that] by (rule conjunct1)
    show "body_overflow (modalStack_close ?q) = body_overflow ?q" if "1 < count ?q"
      using f [OF that] by (rule conjunct2)
  qed
qed

lemma run_open_open_close:
  "stack_calls_run [Open, Open, Close] page0 =
     \<lparr>count = 1, debug = False, html_overflow = ''hidden'', body_overflow = ''hidden'',
      console = []\<rparr>"
  by (simp add: page0_def modalStack_defs)

text \<open>
  Witness for C5: after \<^verbatim>\<open>open(); open(); close()\<close> the count is 1 and the scroll is locked.
\<close>

theorem modalStack_drives_scroll_lock_witness:
  "count page0 = 0 \<and> scroll_free page0 \<and>
   count (stack_calls_run [Open, Open, Close] page0) = 1 \<and>
   scroll_locked (stack_calls_run [Open, Open, Close] page0)"
proof -
  have h: "count page0 = 0" and f: "scroll_free page0"
    by (simp_all add: page0_def scroll_free_def)
  have c: "count (stack_calls_run [Open, Open, Close] page0) = 1"
    by (simp only: run_open_open_close page.simps)
  have "scroll_locked (stack_calls_run [Open, Open, Close] page0)
          \<longleftrightarrow> 0 < count (stack_calls_run [Open, Open, Close] page0)"
    using modalStack_drives_scroll_lock [OF h f, of "[Open, Open, Close]"] by (rule conjunct1)
  then have "scroll_locked (stack_calls_run [Open, Open, Close] page0) \<longleftrightarrow> (0::int) < 1"
    by (simp only: c)
  then have "scroll_locked (stack_calls_run [Open, Open, Close] page0)"
    by (simp only: zero_less_one)
  then show ?thesis
    using h f c by (intro conjI)
qed

section \<open>The message limit: the send button and the countdown text\<close>

text \<open>
  Claim C3 as stated (remaining = 0 disables the send button and the input) fails:
  \<^verbatim>\<open>updateMessageLimitUI\<close> looks at \<^verbatim>\<open>canSend\<close>, not at \<^verbatim>\<open>remaining\<close>. With
  remaining 0 and \<^verbatim>\<open>canSend\<close> true the send button stays enabled and the input is enabled.
\<close>

theorem remaining_zero_not_disabled:
  "remaining \<lparr>total = 15, remaining = 0, canSend = True, timeRemaining = 0\<rparr> = 0 \<and>
   \<not> sendButton_disabled
       (updateMessageLimitUI midnight
          \<lparr>total = 15, remaining = 0, canSend = True, timeRemaining = 0\<rparr> dom0) \<and>
   \<not> messageInput_disabled
       (updateMessageLimitUI midnight
          \<lparr>total = 15, remaining = 0, canSend = True, timeRemaining = 0\<rparr> dom0)"
  by (simp add: updateMessageLimitUI_def dom0_def Let_def)

text \<open>
  Claim C3, amended. For every message-limit state in which \<^verbatim>\<open>canSend\<close> is false, after
  \<^verbatim>\<open>updateMessageLimitUI\<close> the send button and the message input are disabled, whatever
  the remaining count; when \<^verbatim>\<open>canSend\<close> is true the input is enabled and the send button's
  \<^verbatim>\<open>disabled\<close> flag is left as it was.
\<close>

theorem canSend_false_disables_send:
  "(\<not> canSend st \<longrightarrow>
      sendButton_disabled (updateMessageLimitUI clock st d) \<and>
      messageInput_disabled (updateMessageLimitUI clock st d)) \<and>
   (canSend st \<longrightarrow>
      sendButton_disabled (updateMessageLimitUI clock st d) = sendButton_disabled d \<and>
      \<not> messageInput_disabled (updateMessageLimitUI clock st d))"
  by (simp add: updateMessageLimitUI_def Let_def)

text \<open>
  Witness for C3: remaining 0 with \<^verbatim>\<open>canSend\<close> false disables both.
\<close>

theorem canSend_false_disables_send_witness:
  "\<not> canSend \<lparr>total = 15, remaining = 0, canSend = False, timeRemaining = 60\<rparr> \<and>
   sendButton_disabled
     (updateMessageLimitUI midnight
        \<lparr>total = 15, remaining = 0, canSend = False, timeRemaining = 60\<rparr> dom0) \<and>
   messageInput_disabled
     (updateMessageLimitUI midnight
        \<lparr>total = 15, remaining = 0, canSend = False, timeRemaining = 60\<rparr> dom0)"
proof -
  let ?st = "\<lparr>total = 15, remaining = 0, canSend = False, timeRemaining = 60\<rparr>"
  have h: "\<not> canSend ?st"
    by simp
  have "\<not> canSend ?st \<longrightarrow>
      sendButton_disabled (updateMessageLimitUI midnight ?st dom0) \<and>
      messageInput_disabled (updateMessageLimitUI midnight ?st dom0)"
    using canSend_false_disables_send [of ?st midnight dom0] by (rule conjunct1)
  then have "sendButton_disabled (updateMessageLimitUI midnight ?st dom0) \<and>
      messageInput_disabled (updateMessageLimitUI midnight ?st dom0)"
    using h by (rule mp)
  then show ?thesis
    using h by (intro conjI) (elim conjE, assumption)+
qed


















end
